theory Spec2Isabelle
  imports Main "HOL-Library.Word"
begin

section \<open>Data model\<close>

text \<open>
  A C \<^verbatim>\<open>char\<close> is an octet. A C array (or a \<^verbatim>\<open>char*\<close>) is the memory seen from its
  base address: a function from the index to the byte stored there. The declared length
  is not part of the value, so a store past the declared length is a store at that
  index and shows in the result, and a read past it yields whatever the memory holds.
  Sizes and indices are natural numbers: the model follows the code as long as they
  stay within the range of the C types that hold them.
\<close>

type_synonym byte = "8 word"
type_synonym carray = "nat \<Rightarrow> byte"

definition bytes_of :: "carray \<Rightarrow> nat \<Rightarrow> byte list" where
  "bytes_of a n = map a [0..<n]"

definition array_of :: "byte list \<Rightarrow> carray" where
  "array_of xs = (\<lambda>i. if i < length xs then xs ! i else 0)"

text \<open>The array of zero bytes; as a string it is the empty string \<^verbatim>\<open>""\<close>.\<close>

definition zero_array :: carray where
  "zero_array = (\<lambda>i. 0)"

text \<open>
  The capacity constants come from headers (OscCommon.h, OscPacket.h, OscMessage.h,
  OscBundle.h) that the functions below only use; they are parameters of the model.
\<close>

record limits =
  MAX_TRANSPORT_SIZE :: nat
  MAX_OSC_PACKET_SIZE :: nat
  MAX_OSC_ADDRESS_PATTERN_LENGTH :: nat
  MAX_NUMBER_OF_ARGUMENTS :: nat
  MAX_OSC_TYPE_TAG_STRING_LENGTH :: nat
  MAX_ARGUMENTS_SIZE :: nat
  MIN_OSC_MESSAGE_SIZE :: nat
  MAX_OSC_MESSAGE_SIZE :: nat
  MIN_OSC_BUNDLE_SIZE :: nat
  MAX_OSC_BUNDLE_SIZE :: nat
  MAX_OSC_BUNDLE_ELEMENTS_SIZE :: nat

text \<open>OscSlip.h: \<^verbatim>\<open>#define OSC_SLIP_DECODER_BUFFER_SIZE MAX_TRANSPORT_SIZE\<close>.\<close>

definition OSC_SLIP_DECODER_BUFFER_SIZE :: "limits \<Rightarrow> nat" where
  "OSC_SLIP_DECODER_BUFFER_SIZE L = MAX_TRANSPORT_SIZE L"

text \<open>
  An OSC packet: the contents array, the size, and whether a ProcessMessage function is
  assigned (the function itself is application code; the model records its calls).
\<close>

record OscPacket =
  contents :: carray
  packet_size :: nat
  processMessage :: bool

definition OscPacketInitialise :: "OscPacket \<Rightarrow> OscPacket" where
  "OscPacketInitialise oscPacket = oscPacket\<lparr>packet_size := 0, processMessage := False\<rparr>"

section \<open>OscSlip.c\<close>

definition SLIP_END :: byte where "SLIP_END = 0xC0"
definition SLIP_ESC :: byte where "SLIP_ESC = 0xDB"
definition SLIP_ESC_END :: byte where "SLIP_ESC_END = 0xDC"
definition SLIP_ESC_ESC :: byte where "SLIP_ESC_ESC = 0xDD"

record OscSlipDecoder =
  buffer :: carray
  bufferIndex :: nat
  processPacket :: bool

definition OscSlipDecoderInitialise :: "OscSlipDecoder \<Rightarrow> OscSlipDecoder" where
  "OscSlipDecoderInitialise d = d\<lparr>bufferIndex := 0, processPacket := False\<rparr>"

text \<open>
  The encoder's loop. The state is the destination memory and \<^verbatim>\<open>encodedPacketSize\<close>;
  the result is the return code, the value stored in \<^verbatim>\<open>*slipPacketSize\<close> and the
  destination memory.
\<close>

function encode_loop ::
  "OscPacket \<Rightarrow> nat \<Rightarrow> nat \<Rightarrow> carray \<Rightarrow> nat \<Rightarrow> int \<times> nat \<times> carray" where
  "encode_loop oscPacket destinationSize packetIndex destination encodedPacketSize =
     (if packetIndex < packet_size oscPacket then
        if encodedPacketSize + 1 > destinationSize then (1, 0, destination)
        else if contents oscPacket packetIndex = SLIP_END then
          encode_loop oscPacket destinationSize (packetIndex + 1)
            (destination(encodedPacketSize := SLIP_ESC, encodedPacketSize + 1 := SLIP_ESC_END))
            (encodedPacketSize + 2)
        else if contents oscPacket packetIndex = SLIP_ESC then
          encode_loop oscPacket destinationSize (packetIndex + 1)
            (destination(encodedPacketSize := SLIP_ESC, encodedPacketSize + 1 := SLIP_ESC_ESC))
            (encodedPacketSize + 2)
        else
          encode_loop oscPacket destinationSize (packetIndex + 1)
            (destination(encodedPacketSize := contents oscPacket packetIndex))
            (encodedPacketSize + 1)
      else (0, encodedPacketSize + 1, destination(encodedPacketSize := SLIP_END)))"
  by pat_completeness auto
termination
  by (relation "measure (\<lambda>(p, ds, i, d, n). packet_size p - i)") auto

definition OscSlipEncodePacket :: "OscPacket \<Rightarrow> carray \<Rightarrow> nat \<Rightarrow> int \<times> nat \<times> carray" where
  "OscSlipEncodePacket oscPacket destination destinationSize =
     encode_loop oscPacket destinationSize 0 destination 0"

text \<open>
  The decoder's un-escaping loop \<^verbatim>\<open>while (buffer[i] != SLIP_END)\<close> has no bound of its
  own: it is a partial function, \<open>None\<close> when it does not return. The result is the
  value returned from inside the loop (\<open>Some 1\<close>) or \<open>None\<close> when the loop ends
  normally, with the packet built so far.
\<close>

definition put_byte :: "OscPacket \<Rightarrow> byte \<Rightarrow> OscPacket" where
  "put_byte oscPacket b =
     oscPacket\<lparr>contents := (contents oscPacket)(packet_size oscPacket := b),
               packet_size := packet_size oscPacket + 1\<rparr>"

partial_function (option) decode_loop ::
  "limits \<Rightarrow> carray \<Rightarrow> nat \<Rightarrow> OscPacket \<Rightarrow> (int option \<times> OscPacket) option" where
  "decode_loop L buf i oscPacket =
     (if buf i \<noteq> SLIP_END then
        if buf i = SLIP_ESC then
          if buf (i + 1) = SLIP_ESC_END then
            if packet_size (put_byte oscPacket SLIP_END) > MAX_OSC_PACKET_SIZE L
            then Some (Some 1, put_byte oscPacket SLIP_END)
            else decode_loop L buf (i + 2) (put_byte oscPacket SLIP_END)
          else if buf (i + 1) = SLIP_ESC_ESC then
            if packet_size (put_byte oscPacket SLIP_ESC) > MAX_OSC_PACKET_SIZE L
            then Some (Some 1, put_byte oscPacket SLIP_ESC)
            else decode_loop L buf (i + 2) (put_byte oscPacket SLIP_ESC)
          else Some (Some 1, oscPacket)
        else
          if packet_size (put_byte oscPacket (buf i)) > MAX_OSC_PACKET_SIZE L
          then Some (Some 1, put_byte oscPacket (buf i))
          else decode_loop L buf (i + 1) (put_byte oscPacket (buf i))
      else Some (None, oscPacket))"

text \<open>
  \<^verbatim>\<open>OscSlipDecoderProcessByte\<close>. The local \<^verbatim>\<open>OscPacket oscPacket\<close> is not initialised by
  its declaration; its indeterminate value is the parameter \<open>local\<close>. The result is
  the return code, the decoder, and the packets handed to ProcessPacket, in order;
  \<open>None\<close> when the function does not return.
\<close>

definition OscSlipDecoderProcessByte ::
  "limits \<Rightarrow> OscPacket \<Rightarrow> OscSlipDecoder \<Rightarrow> byte \<Rightarrow> (int \<times> OscSlipDecoder \<times> OscPacket list) option" where
  "OscSlipDecoderProcessByte L local d b =
     (let d1 = d\<lparr>buffer := (buffer d)(bufferIndex d := b)\<rparr>;
          d2 = (if bufferIndex d1 + 1 \<ge> OSC_SLIP_DECODER_BUFFER_SIZE L
                then d1\<lparr>bufferIndex := 0\<rparr>
                else d1\<lparr>bufferIndex := bufferIndex d1 + 1\<rparr>)
      in if b = SLIP_END then
           let d3 = d2\<lparr>bufferIndex := 0\<rparr> in
           if \<not> processPacket d3 then Some (1, d3, [])
           else (case decode_loop L (buffer d3) 0 (OscPacketInitialise local) of
                   None \<Rightarrow> None
                 | Some (Some r, oscPacket) \<Rightarrow> Some (r, d3, [])
                 | Some (None, oscPacket) \<Rightarrow> Some (0, d3, [oscPacket]))
         else Some (0, d2, []))"

text \<open>Feeding a byte sequence one byte at a time; the calls to ProcessPacket accumulate.\<close>

fun feed ::
  "limits \<Rightarrow> OscPacket \<Rightarrow> OscSlipDecoder \<Rightarrow> byte list \<Rightarrow> (OscSlipDecoder \<times> OscPacket list) option" where
  "feed L local d [] = Some (d, [])"
| "feed L local d (b # bs) =
     (case OscSlipDecoderProcessByte L local d b of
        None \<Rightarrow> None
      | Some (r, d', ps) \<Rightarrow>
          (case feed L local d' bs of
             None \<Rightarrow> None
           | Some (d'', ps') \<Rightarrow> Some (d'', ps @ ps')))"


section \<open>OscMessage.c: construction\<close>

text \<open>
  Modelled from the spec: the character values of OscCommon.h's \<^verbatim>\<open>OscContentsType\<close> and
  OscMessage.h's \<^verbatim>\<open>OscTypeTag\<close> enumerations (section 3.1 and 3.5 of the spec give each
  tag as one ASCII character).
\<close>

definition OscContentsTypeMessage :: byte where "OscContentsTypeMessage = 0x2F"
definition OscContentsTypeBundle :: byte where "OscContentsTypeBundle = 0x23"
definition comma :: byte where "comma = 0x2C"
definition OscTypeTagString :: byte where "OscTypeTagString = 0x73"

text \<open>
  Modelled from the spec: the unions \<^verbatim>\<open>OscArgument32\<close>, \<^verbatim>\<open>OscArgument64\<close> and
  \<^verbatim>\<open>OscTimeTag\<close> of the headers. A 32-bit argument (int32, float32, RGBA colour, MIDI
  message) is its 32-bit pattern and a 64-bit one (int64, double, time tag) its 64-bit
  pattern; \<^verbatim>\<open>byteStruct.byteN\<close> is the byte of bits \<open>8N\<close> to \<open>8N+7\<close>, so that
  storing \<^verbatim>\<open>byte3\<close> first gives the big-endian order of the spec.
\<close>

definition byteN :: "nat \<Rightarrow> 'a::len word \<Rightarrow> byte" where
  "byteN k w = ucast (drop_bit (8 * k) w)"

definition bytes32 :: "32 word \<Rightarrow> byte list" where
  "bytes32 w = [byteN 3 w, byteN 2 w, byteN 1 w, byteN 0 w]"

definition bytes64 :: "64 word \<Rightarrow> byte list" where
  "bytes64 w = [byteN 7 w, byteN 6 w, byteN 5 w, byteN 4 w, byteN 3 w, byteN 2 w, byteN 1 w, byteN 0 w]"

fun word_of_bytes :: "byte list \<Rightarrow> 'a::len word" where
  "word_of_bytes [] = 0"
| "word_of_bytes (b # bs) = or (push_bit (8 * length bs) (ucast b)) (word_of_bytes bs)"

record OscMessage =
  oscAddressPattern :: carray
  oscTypeTagString :: carray
  arguments :: carray
  oscAddressPatternLength :: nat
  oscTypeTagStringLength :: nat
  argumentsSize :: nat
  oscTypeTagStringIndex :: nat
  argumentsIndex :: nat

text \<open>
  \<^verbatim>\<open>OscMessageAppendAddressPattern\<close>: the loop over \<^verbatim>\<open>*appendedParts\<close>; \<open>k\<close> is how
  far the pointer has advanced.
\<close>

function append_address_loop :: "limits \<Rightarrow> OscMessage \<Rightarrow> carray \<Rightarrow> nat \<Rightarrow> int \<times> OscMessage" where
  "append_address_loop L m appendedParts k =
     (if appendedParts k \<noteq> 0 then
        if oscAddressPatternLength m \<ge> MAX_OSC_ADDRESS_PATTERN_LENGTH L then (1, m)
        else append_address_loop L
               (m\<lparr>oscAddressPattern := (oscAddressPattern m)(oscAddressPatternLength m := appendedParts k),
                  oscAddressPatternLength := oscAddressPatternLength m + 1\<rparr>)
               appendedParts (k + 1)
      else (0, m\<lparr>oscAddressPattern := (oscAddressPattern m)(oscAddressPatternLength m := 0)\<rparr>))"
  by pat_completeness auto
termination
  by (relation "measure (\<lambda>(L, m, a, k). MAX_OSC_ADDRESS_PATTERN_LENGTH L - oscAddressPatternLength m)") auto

definition OscMessageAppendAddressPattern :: "limits \<Rightarrow> OscMessage \<Rightarrow> carray \<Rightarrow> int \<times> OscMessage" where
  "OscMessageAppendAddressPattern L m appendedParts =
     (if appendedParts 0 \<noteq> OscContentsTypeMessage then (1, m)
      else append_address_loop L m appendedParts 0)"

definition OscMessageSetAddressPattern :: "limits \<Rightarrow> OscMessage \<Rightarrow> carray \<Rightarrow> int \<times> OscMessage" where
  "OscMessageSetAddressPattern L m pattern =
     OscMessageAppendAddressPattern L (m\<lparr>oscAddressPatternLength := 0\<rparr>) pattern"

definition OscMessageInitialise :: "limits \<Rightarrow> OscMessage \<Rightarrow> carray \<Rightarrow> int \<times> OscMessage" where
  "OscMessageInitialise L m pattern =
     (let m1 = m\<lparr>oscAddressPattern := (oscAddressPattern m)(0 := 0),
                  oscTypeTagString := (oscTypeTagString m)(0 := comma, 1 := 0),
                  oscAddressPatternLength := 0,
                  oscTypeTagStringLength := 1,
                  argumentsSize := 0,
                  oscTypeTagStringIndex := 1,
                  argumentsIndex := 0\<rparr>
      in if pattern 0 \<noteq> 0 then OscMessageSetAddressPattern L m1 pattern else (0, m1))"

text \<open>
  The two stores that every \<^verbatim>\<open>OscMessageAdd...\<close> makes to the type tag string, and the
  store \<^verbatim>\<open>arguments[argumentsSize++] = b\<close>.
\<close>

definition add_tag :: "OscMessage \<Rightarrow> byte \<Rightarrow> OscMessage" where
  "add_tag m t =
     m\<lparr>oscTypeTagString := (oscTypeTagString m)
          (oscTypeTagStringLength m := t, oscTypeTagStringLength m + 1 := 0),
       oscTypeTagStringLength := oscTypeTagStringLength m + 1\<rparr>"






function TerminateOscString :: "carray \<Rightarrow> nat \<Rightarrow> nat \<Rightarrow> int \<times> carray \<times> nat" where
  "TerminateOscString oscString oscStringSize maxOscStringSize =
     (if oscStringSize \<ge> maxOscStringSize then (1, oscString, oscStringSize)
      else if (oscStringSize + 1) mod 4 \<noteq> 0
        then TerminateOscString (oscString(oscStringSize := 0)) (oscStringSize + 1) maxOscStringSize
        else (0, oscString(oscStringSize := 0), oscStringSize + 1))"
  by pat_completeness auto
termination
  by (relation "measure (\<lambda>(s, n, m). m - n)") auto

text \<open>
  \<^verbatim>\<open>OscMessageAddString\<close>: the copy loop works on the message's arguments array with a
  local copy of \<^verbatim>\<open>argumentsSize\<close>; \<open>k\<close> is how far \<^verbatim>\<open>string\<close> has advanced.
\<close>

function add_string_loop :: "limits \<Rightarrow> carray \<Rightarrow> carray \<Rightarrow> nat \<Rightarrow> nat \<Rightarrow> int \<times> carray \<times> nat" where
  "add_string_loop L args string k argumentsSize' =
     (if string k \<noteq> 0 then
        if argumentsSize' \<ge> MAX_ARGUMENTS_SIZE L then (1, args, argumentsSize')
        else add_string_loop L (args(argumentsSize' := string k)) string (k + 1) (argumentsSize' + 1)
      else (0, args, argumentsSize'))"
  by pat_completeness auto
termination
  by (relation "measure (\<lambda>(L, a, s, k, n). MAX_ARGUMENTS_SIZE L - n)") auto

definition OscMessageAddString :: "limits \<Rightarrow> OscMessage \<Rightarrow> carray \<Rightarrow> int \<times> OscMessage" where
  "OscMessageAddString L m string =
     (if oscTypeTagStringLength m > MAX_NUMBER_OF_ARGUMENTS L then (1, m)
      else case add_string_loop L (arguments m) string 0 (argumentsSize m) of
        (r1, args1, size1) \<Rightarrow>
          if r1 \<noteq> 0 then (1, m\<lparr>arguments := args1\<rparr>)
          else case TerminateOscString args1 size1 (MAX_ARGUMENTS_SIZE L) of
            (r2, args2, size2) \<Rightarrow>
              if r2 \<noteq> 0 then (1, m\<lparr>arguments := args2\<rparr>)
              else (0, add_tag (m\<lparr>arguments := args2, argumentsSize := size2\<rparr>) OscTypeTagString))"

text \<open>Copying \<open>n\<close> bytes, \<^verbatim>\<open>dst[d++] = src[s++]\<close>.\<close>

fun copy_bytes :: "carray \<Rightarrow> nat \<Rightarrow> carray \<Rightarrow> nat \<Rightarrow> nat \<Rightarrow> carray" where
  "copy_bytes dst d src s 0 = dst"
| "copy_bytes dst d src s (Suc n) = copy_bytes (dst(d := src s)) (Suc d) src (Suc s) n"















definition OscMessageGetSize :: "OscMessage \<Rightarrow> nat" where
  "OscMessageGetSize m =
     (let s1 = oscAddressPatternLength m + 1;
          s2 = (if s1 mod 4 \<noteq> 0 then s1 + (4 - s1 mod 4) else s1);
          s3 = s2 + (oscTypeTagStringLength m + 1);
          s4 = (if s3 mod 4 \<noteq> 0 then s3 + (4 - s3 mod 4) else s3)
      in s4 + argumentsSize m)"

text \<open>
  \<^verbatim>\<open>OscMessageToCharArray\<close>: the result is the return code, the value stored in
  \<^verbatim>\<open>*oscMessageSize\<close> and the destination memory.
\<close>

definition OscMessageToCharArray :: "OscMessage \<Rightarrow> carray \<Rightarrow> nat \<Rightarrow> int \<times> nat \<times> carray" where
  "OscMessageToCharArray m destination destinationSize =
     (if oscAddressPatternLength m = 0 then (1, 0, destination)
      else if oscAddressPattern m 0 \<noteq> OscContentsTypeMessage then (1, 0, destination)
      else if oscAddressPatternLength m > destinationSize then (1, 0, destination)
      else
        let d1 = copy_bytes destination 0 (oscAddressPattern m) 0 (oscAddressPatternLength m)
        in case TerminateOscString d1 (oscAddressPatternLength m) destinationSize of
          (r2, d2, size2) \<Rightarrow>
            if r2 \<noteq> 0 then (1, 0, d2)
            else if size2 + oscTypeTagStringLength m > destinationSize then (1, 0, d2)
            else
              let d3 = copy_bytes d2 size2 (oscTypeTagString m) 0 (oscTypeTagStringLength m)
              in case TerminateOscString d3 (size2 + oscTypeTagStringLength m) destinationSize of
                (r4, d4, size4) \<Rightarrow>
                  if r4 \<noteq> 0 then (1, 0, d4)
                  else if size4 + argumentsSize m > destinationSize then (1, 0, d4)
                  else (0, size4 + argumentsSize m,
                        copy_bytes d4 size4 (arguments m) 0 (argumentsSize m)))"

section \<open>OscMessage.c: deconstruction\<close>

text \<open>
  The loops of \<^verbatim>\<open>OscMessageInitialiseFromCharArray\<close>. A loop that can return from the
  function yields \<open>Some 1\<close> for that return and \<open>None\<close> when it ends normally.
\<close>

function parse_address_loop ::
  "limits \<Rightarrow> carray \<Rightarrow> nat \<Rightarrow> OscMessage \<Rightarrow> nat \<Rightarrow> int option \<times> OscMessage \<times> nat" where
  "parse_address_loop L source sourceSize m sourceIndex =
     (if source sourceIndex \<noteq> 0 then
        let m1 = m\<lparr>oscAddressPattern := (oscAddressPattern m)(oscAddressPatternLength m := source sourceIndex),
                    oscAddressPatternLength := oscAddressPatternLength m + 1\<rparr>
        in if oscAddressPatternLength m1 > MAX_OSC_ADDRESS_PATTERN_LENGTH L then (Some 1, m1, sourceIndex)
           else if sourceIndex + 1 \<ge> sourceSize then (Some 1, m1, sourceIndex + 1)
           else parse_address_loop L source sourceSize m1 (sourceIndex + 1)
      else (None, m, sourceIndex))"
  by pat_completeness auto
termination
  by (relation "measure (\<lambda>(L, s, n, m, i). n - i)") auto

text \<open>
  \<^verbatim>\<open>while (source[sourceIndex - 1] != ',')\<close>: \<open>sourceIndex\<close> is at least 1 here, because
  the first byte is \<^verbatim>\<open>'/'\<close> and the address loop has advanced past it.
\<close>

function skip_to_comma_loop :: "carray \<Rightarrow> nat \<Rightarrow> nat \<Rightarrow> int option \<times> nat" where
  "skip_to_comma_loop source sourceSize sourceIndex =
     (if source (sourceIndex - 1) \<noteq> comma then
        if sourceIndex + 1 \<ge> sourceSize then (Some 1, sourceIndex + 1)
        else skip_to_comma_loop source sourceSize (sourceIndex + 1)
      else (None, sourceIndex))"
  by pat_completeness auto
termination
  by (relation "measure (\<lambda>(s, n, i). n - i)") auto

function parse_type_tag_loop ::
  "limits \<Rightarrow> carray \<Rightarrow> nat \<Rightarrow> OscMessage \<Rightarrow> nat \<Rightarrow> int option \<times> OscMessage \<times> nat" where
  "parse_type_tag_loop L source sourceSize m sourceIndex =
     (if source sourceIndex \<noteq> 0 then
        let m1 = m\<lparr>oscTypeTagString := (oscTypeTagString m)(oscTypeTagStringLength m := source sourceIndex),
                    oscTypeTagStringLength := oscTypeTagStringLength m + 1\<rparr>
        in if oscTypeTagStringLength m1 > MAX_OSC_TYPE_TAG_STRING_LENGTH L then (Some 1, m1, sourceIndex)
           else if sourceIndex + 1 \<ge> sourceSize then (Some 1, m1, sourceIndex + 1)
           else parse_type_tag_loop L source sourceSize m1 (sourceIndex + 1)
      else (None, m, sourceIndex))"
  by pat_completeness auto
termination
  by (relation "measure (\<lambda>(L, s, n, m, i). n - i)") auto

function advance_to_arguments_loop :: "nat \<Rightarrow> nat \<Rightarrow> int option \<times> nat" where
  "advance_to_arguments_loop sourceSize sourceIndex =
     (if sourceIndex + 1 > sourceSize then (Some 1, sourceIndex + 1)
      else if (sourceIndex + 1) mod 4 \<noteq> 0 then advance_to_arguments_loop sourceSize (sourceIndex + 1)
      else (None, sourceIndex + 1))"
  by pat_completeness auto
termination
  by (relation "measure (\<lambda>(n, i). n - i)") auto

definition OscMessageInitialiseFromCharArray ::
  "limits \<Rightarrow> OscMessage \<Rightarrow> carray \<Rightarrow> nat \<Rightarrow> int \<times> OscMessage" where
  "OscMessageInitialiseFromCharArray L m source sourceSize =
     (let m0 = snd (OscMessageInitialise L m zero_array) in
      if sourceSize mod 4 \<noteq> 0 then (1, m0)
      else if sourceSize < MIN_OSC_MESSAGE_SIZE L then (1, m0)
      else if sourceSize > MAX_OSC_MESSAGE_SIZE L then (1, m0)
      else if source 0 \<noteq> OscContentsTypeMessage then (1, m0)
      else case parse_address_loop L source sourceSize m0 0 of
        (Some r, m1, i1) \<Rightarrow> (r, m1)
      | (None, m1, i1) \<Rightarrow>
          let m2 = m1\<lparr>oscAddressPattern := (oscAddressPattern m1)(oscAddressPatternLength m1 := 0)\<rparr>
          in case skip_to_comma_loop source sourceSize i1 of
            (Some r, i2) \<Rightarrow> (r, m2)
          | (None, i2) \<Rightarrow>
              (case parse_type_tag_loop L source sourceSize m2 i2 of
                 (Some r, m3, i3) \<Rightarrow> (r, m3)
               | (None, m3, i3) \<Rightarrow>
                   let m4 = m3\<lparr>oscTypeTagString := (oscTypeTagString m3)(oscTypeTagStringLength m3 := 0)\<rparr>
                   in case advance_to_arguments_loop sourceSize i3 of
                     (Some r, i4) \<Rightarrow> (r, m4)
                   | (None, i4) \<Rightarrow>
                       (0, m4\<lparr>arguments := copy_bytes (arguments m4) (argumentsSize m4) source i4 (sourceSize - i4),
                              argumentsSize := argumentsSize m4 + (sourceSize - i4)\<rparr>)))"

















section \<open>OscBundle.c\<close>

text \<open>
  Modelled from the spec: \<^verbatim>\<open>OSC_BUNDLE_HEADER\<close> of OscBundle.h, the 8-byte OSC-string
  \<^verbatim>\<open>#bundle\0\<close> (section 3.4), so that \<^verbatim>\<open>sizeof (OSC_BUNDLE_HEADER)\<close> is 8;
  \<^verbatim>\<open>sizeof (OscTimeTag)\<close> is 8 and \<^verbatim>\<open>sizeof (OscArgument32)\<close> is 4.
\<close>

definition OSC_BUNDLE_HEADER :: "byte list" where
  "OSC_BUNDLE_HEADER = [0x23, 0x62, 0x75, 0x6E, 0x64, 0x6C, 0x65, 0x00]"

record OscBundle =
  header :: carray
  oscTimeTag :: "64 word"
  oscBundleElements :: carray
  oscBundleElementsSize :: nat
  oscBundleElementsIndex :: nat

text \<open>
  A bundle element: \<open>contents\<close> points into the bundle's element array (the memory seen
  from that address), \<open>size\<close> is the \<^verbatim>\<open>OscArgument32\<close> read from the array.
\<close>

record OscBundleElement =
  element_contents :: carray
  element_size :: "32 word"

definition OscBundleInitialise :: "OscBundle \<Rightarrow> 64 word \<Rightarrow> OscBundle" where
  "OscBundleInitialise b t =
     b\<lparr>header := copy_bytes (header b) 0 (array_of OSC_BUNDLE_HEADER) 0 8,
       oscTimeTag := t,
       oscBundleElementsSize := 0\<rparr>"

definition OscBundleEmpty :: "OscBundle \<Rightarrow> OscBundle" where
  "OscBundleEmpty b = b\<lparr>oscBundleElementsSize := 0\<rparr>"

definition OscBundleIsEmpty :: "OscBundle \<Rightarrow> bool" where
  "OscBundleIsEmpty b = (oscBundleElementsSize b = 0)"

definition OscBundleGetSize :: "OscBundle \<Rightarrow> nat" where
  "OscBundleGetSize b = 8 + 8 + oscBundleElementsSize b"

definition OscBundleToCharArray :: "OscBundle \<Rightarrow> carray \<Rightarrow> nat \<Rightarrow> int \<times> nat \<times> carray" where
  "OscBundleToCharArray b destination destinationSize =
     (if 8 + 8 + oscBundleElementsSize b > destinationSize then (1, 0, destination)
      else
        let d1 = copy_bytes destination 0 (header b) 0 8;
            d2 = copy_bytes d1 8 (array_of (bytes64 (oscTimeTag b))) 0 8;
            d3 = copy_bytes d2 16 (oscBundleElements b) 0 (oscBundleElementsSize b)
        in (0, 16 + oscBundleElementsSize b, d3))"

text \<open>
  The element copy of \<^verbatim>\<open>OscBundleInitialiseFromCharArray\<close> is a \<^verbatim>\<open>do ... while\<close>: the body
  runs before the test.
\<close>

function bundle_elements_loop :: "carray \<Rightarrow> nat \<Rightarrow> carray \<Rightarrow> nat \<Rightarrow> nat \<Rightarrow> carray \<times> nat" where
  "bundle_elements_loop elements elementsSize source sourceIndex sourceSize =
     (if sourceIndex + 1 < sourceSize
        then bundle_elements_loop (elements(elementsSize := source sourceIndex)) (elementsSize + 1)
               source (sourceIndex + 1) sourceSize
        else (elements(elementsSize := source sourceIndex), elementsSize + 1))"
  by pat_completeness auto
termination
  by (relation "measure (\<lambda>(e, n, s, i, sz). sz - i)") auto

definition OscBundleInitialiseFromCharArray ::
  "limits \<Rightarrow> OscBundle \<Rightarrow> carray \<Rightarrow> nat \<Rightarrow> int \<times> OscBundle" where
  "OscBundleInitialiseFromCharArray L b source sourceSize =
     (if sourceSize mod 4 \<noteq> 0 then (1, b)
      else if sourceSize < MIN_OSC_BUNDLE_SIZE L then (1, b)
      else if sourceSize > MAX_OSC_BUNDLE_SIZE L then (1, b)
      else if source 0 \<noteq> OscContentsTypeBundle then (1, b)
      else
        case bundle_elements_loop (oscBundleElements b) 0 source 16 sourceSize of
          (elements, elementsSize) \<Rightarrow>
            (0, b\<lparr>header := copy_bytes (header b) 0 source 0 8,
                  oscTimeTag := word_of_bytes (map source [8..<16]),
                  oscBundleElements := elements,
                  oscBundleElementsSize := elementsSize,
                  oscBundleElementsIndex := 0\<rparr>))"

definition OscBundleIsBundleElementAvailable :: "OscBundle \<Rightarrow> bool" where
  "OscBundleIsBundleElementAvailable b =
     (oscBundleElementsIndex b + 4 < oscBundleElementsSize b)"

text \<open>
  \<^verbatim>\<open>OscBundleGetBundleElement\<close>: the result is the return code, the bundle and the
  element the caller passed, as the function leaves them.
\<close>

definition OscBundleGetBundleElement ::
  "OscBundle \<Rightarrow> OscBundleElement \<Rightarrow> int \<times> OscBundle \<times> OscBundleElement" where
  "OscBundleGetBundleElement b e =
     (if oscBundleElementsIndex b + 4 \<ge> oscBundleElementsSize b then (1, b, e)
      else
        let sz = (word_of_bytes (map (\<lambda>i. oscBundleElements b (oscBundleElementsIndex b + i)) [0..<4]) :: 32 word);
            b1 = b\<lparr>oscBundleElementsIndex := oscBundleElementsIndex b + 4\<rparr>;
            e1 = e\<lparr>element_size := sz\<rparr>
        in if sint sz < 0 then (1, b1, e1)
           else if sint sz mod 4 \<noteq> 0 then (1, b1, e1)
           else if oscBundleElementsIndex b1 + nat (sint sz) > oscBundleElementsSize b1 then (1, b1, e1)
           else (0, b1\<lparr>oscBundleElementsIndex := oscBundleElementsIndex b1 + nat (sint sz)\<rparr>,
                 e1\<lparr>element_contents := (\<lambda>i. oscBundleElements b1 (oscBundleElementsIndex b1 + i))\<rparr>))"

section \<open>OscPacket.c\<close>

text \<open>
  Modelled from the spec: the macros \<^verbatim>\<open>OSC_CONTENTS_IS_MESSAGE\<close> and
  \<^verbatim>\<open>OSC_CONTENTS_IS_BUNDLE\<close> of OscCommon.h compare the first byte of the contents with
  \<^verbatim>\<open>'/'\<close> and \<^verbatim>\<open>'#'\<close> (section 3.5). \<^verbatim>\<open>OscContents\<close> is a message structure or a
  bundle structure, whose first byte is the first byte of its first member.
\<close>

datatype OscContents = IsMessage OscMessage | IsBundle OscBundle

fun first_byte :: "OscContents \<Rightarrow> byte" where
  "first_byte (IsMessage m) = oscAddressPattern m 0"
| "first_byte (IsBundle b) = header b 0"

definition OSC_CONTENTS_IS_MESSAGE :: "byte \<Rightarrow> bool" where
  "OSC_CONTENTS_IS_MESSAGE b = (b = OscContentsTypeMessage)"

definition OSC_CONTENTS_IS_BUNDLE :: "byte \<Rightarrow> bool" where
  "OSC_CONTENTS_IS_BUNDLE b = (b = OscContentsTypeBundle)"

text \<open>
  \<^verbatim>\<open>OscPacketInitialiseFromContents\<close>. The casts read the structure as the type its first
  byte names; a structure whose first byte names the other type is read through the
  wrong type, which the model gives as \<open>None\<close>.
\<close>

definition OscPacketInitialiseFromContents ::
  "limits \<Rightarrow> OscPacket \<Rightarrow> OscContents \<Rightarrow> (int \<times> OscPacket) option" where
  "OscPacketInitialiseFromContents L oscPacket oscContents =
     (let p0 = oscPacket\<lparr>processMessage := False\<rparr>;
          s1 = (if OSC_CONTENTS_IS_MESSAGE (first_byte oscContents) then
                  (case oscContents of
                     IsMessage m \<Rightarrow>
                       (case OscMessageToCharArray m (contents p0) (MAX_OSC_PACKET_SIZE L) of
                          (r, n, d) \<Rightarrow> Some (r, p0\<lparr>contents := d, packet_size := n\<rparr>))
                   | IsBundle b \<Rightarrow> None)
                else Some (1, p0));
          s2 = (case s1 of
                  None \<Rightarrow> None
                | Some (oscError, p1) \<Rightarrow>
                    if OSC_CONTENTS_IS_BUNDLE (first_byte oscContents) then
                      (case oscContents of
                         IsBundle b \<Rightarrow>
                           (case OscBundleToCharArray b (contents p1) (MAX_OSC_PACKET_SIZE L) of
                              (r, n, d) \<Rightarrow> Some (r, p1\<lparr>contents := d, packet_size := n\<rparr>))
                       | IsMessage m \<Rightarrow> None)
                    else Some (oscError, p1))
      in case s2 of
           None \<Rightarrow> None
         | Some (oscError, p2) \<Rightarrow> if oscError \<noteq> 0 then Some (oscError, p2) else Some (1, p2))"

definition OscPacketInitialiseFromCharArray ::
  "limits \<Rightarrow> OscPacket \<Rightarrow> carray \<Rightarrow> nat \<Rightarrow> int \<times> OscPacket" where
  "OscPacketInitialiseFromCharArray L oscPacket source sourceSize =
     (if sourceSize > MAX_OSC_PACKET_SIZE L then (1, oscPacket\<lparr>packet_size := 0\<rparr>)
      else (0, oscPacket\<lparr>contents := copy_bytes (contents oscPacket) 0 source 0 sourceSize,
                        packet_size := sourceSize,
                        processMessage := False\<rparr>))"

text \<open>
  \<^verbatim>\<open>DeconstructContents\<close> is recursive, with a loop over the bundle's elements. The first
  argument bounds the number of nested calls and loop iterations still allowed; \<open>None\<close>
  is the result when it is used up. The locals \<^verbatim>\<open>oscMessage\<close>, \<^verbatim>\<open>oscBundle\<close> and
  \<^verbatim>\<open>oscBundleElement\<close> are not initialised by their declarations: their indeterminate
  values are \<open>lm\<close>, \<open>lb\<close> and \<open>le\<close>. The return values of
  \<^verbatim>\<open>OscMessageInitialiseFromCharArray\<close> and \<^verbatim>\<open>OscBundleInitialiseFromCharArray\<close> are not
  used by the source. The result is the return code and the calls made to
  ProcessMessage (time tag, \<open>None\<close> for \<^verbatim>\<open>NULL\<close>, and message), in order.
\<close>

type_synonym message_call = "64 word option \<times> OscMessage"

fun DeconstructContents ::
  "nat \<Rightarrow> limits \<Rightarrow> OscMessage \<Rightarrow> OscBundle \<Rightarrow> OscBundleElement \<Rightarrow>
   64 word option \<Rightarrow> carray \<Rightarrow> nat \<Rightarrow> (int \<times> message_call list) option"
and elements_loop ::
  "nat \<Rightarrow> limits \<Rightarrow> OscMessage \<Rightarrow> OscBundle \<Rightarrow> OscBundleElement \<Rightarrow>
   OscBundle \<Rightarrow> (int \<times> message_call list) option" where
  "DeconstructContents 0 L lm lb le oscTimeTag' oscContents contentsSize = None"
| "DeconstructContents (Suc fuel) L lm lb le oscTimeTag' oscContents contentsSize =
     (if contentsSize = 0 then Some (1, [])
      else if OSC_CONTENTS_IS_MESSAGE (oscContents 0) then
        Some (0, [(oscTimeTag', snd (OscMessageInitialiseFromCharArray L lm oscContents contentsSize))])
      else if OSC_CONTENTS_IS_BUNDLE (oscContents 0) then
        elements_loop fuel L lm lb le (snd (OscBundleInitialiseFromCharArray L lb oscContents contentsSize))
      else Some (1, []))"
| "elements_loop 0 L lm lb le oscBundle = None"
| "elements_loop (Suc fuel) L lm lb le oscBundle =
     (if \<not> OscBundleIsBundleElementAvailable oscBundle then Some (0, [])
      else case OscBundleGetBundleElement oscBundle le of
        (oscError, b1, e1) \<Rightarrow>
          if oscError \<noteq> 0 then Some (oscError, [])
          else case DeconstructContents fuel L lm lb le (Some (oscTimeTag b1))
                      (element_contents e1) (nat (sint (element_size e1))) of
            None \<Rightarrow> None
          | Some (oscError2, calls) \<Rightarrow>
              if oscError2 \<noteq> 0 then Some (oscError2, calls)
              else (case elements_loop fuel L lm lb le b1 of
                      None \<Rightarrow> None
                    | Some (r, calls2) \<Rightarrow> Some (r, calls @ calls2)))"

definition OscPacketProcessMessages ::
  "nat \<Rightarrow> limits \<Rightarrow> OscMessage \<Rightarrow> OscBundle \<Rightarrow> OscBundleElement \<Rightarrow> OscPacket \<Rightarrow>
   (int \<times> message_call list) option" where
  "OscPacketProcessMessages fuel L lm lb le oscPacket =
     (if \<not> processMessage oscPacket then Some (1, [])
      else DeconstructContents fuel L lm lb le None (contents oscPacket) (packet_size oscPacket))"

section \<open>Reference functions\<close>

text \<open>
  The SLIP encoding of a byte sequence as the protocol describes it, without the final
  END, and the statement that an array holds a byte sequence from an index on. Both are
  used to state what the loops compute.
\<close>
fun slip_bytes :: "byte list \<Rightarrow> byte list" where
  "slip_bytes [] = []"
| "slip_bytes (b # bs) =
     (if b = SLIP_END then [SLIP_ESC, SLIP_ESC_END]
      else if b = SLIP_ESC then [SLIP_ESC, SLIP_ESC_ESC]
      else [b]) @ slip_bytes bs"

definition holds :: "carray \<Rightarrow> nat \<Rightarrow> byte list \<Rightarrow> bool" where
  "holds a i ys = (\<forall>j<length ys. a (i + j) = ys ! j)"

text \<open>A concrete configuration and concrete values, for evaluating the model.\<close>

definition example_limits :: limits where
  "example_limits = \<lparr>MAX_TRANSPORT_SIZE = 1472, MAX_OSC_PACKET_SIZE = 1472,
     MAX_OSC_ADDRESS_PATTERN_LENGTH = 64, MAX_NUMBER_OF_ARGUMENTS = 16,
     MAX_OSC_TYPE_TAG_STRING_LENGTH = 17, MAX_ARGUMENTS_SIZE = 1383,
     MIN_OSC_MESSAGE_SIZE = 8, MAX_OSC_MESSAGE_SIZE = 1472,
     MIN_OSC_BUNDLE_SIZE = 16, MAX_OSC_BUNDLE_SIZE = 1472,
     MAX_OSC_BUNDLE_ELEMENTS_SIZE = 1456\<rparr>"

definition packet_of :: "byte list \<Rightarrow> OscPacket" where
  "packet_of xs = \<lparr>contents = array_of xs, packet_size = length xs, processMessage = False\<rparr>"

definition ready_decoder :: OscSlipDecoder where
  "ready_decoder = (OscSlipDecoderInitialise \<lparr>buffer = zero_array, bufferIndex = 0, processPacket = False\<rparr>)
     \<lparr>processPacket := True\<rparr>"

definition calls_of :: "(int \<times> OscSlipDecoder \<times> OscPacket list) option \<Rightarrow> OscPacket list" where
  "calls_of r = (case r of None \<Rightarrow> [] | Some (c, d, ps) \<Rightarrow> ps)"

definition ascii :: "string \<Rightarrow> byte list" where
  "ascii s = map (\<lambda>c. of_nat (of_char c)) s"

definition blank_message :: OscMessage where
  "blank_message = \<lparr>oscAddressPattern = zero_array, oscTypeTagString = zero_array,
     arguments = zero_array, oscAddressPatternLength = 0, oscTypeTagStringLength = 0,
     argumentsSize = 0, oscTypeTagStringIndex = 0, argumentsIndex = 0\<rparr>"

definition blank_bundle :: OscBundle where
  "blank_bundle = \<lparr>header = zero_array, oscTimeTag = 0, oscBundleElements = zero_array,
     oscBundleElementsSize = 0, oscBundleElementsIndex = 0\<rparr>"

definition blank_element :: OscBundleElement where
  "blank_element = \<lparr>element_contents = zero_array, element_size = 0\<rparr>"

definition message_of :: "string \<Rightarrow> OscMessage" where
  "message_of address = snd (OscMessageInitialise example_limits blank_message (array_of (ascii address)))"

definition empty_bundle_bytes :: "byte list" where
  "empty_bundle_bytes = OSC_BUNDLE_HEADER @ [0, 0, 0, 0, 0, 0, 0, 1]"

definition one_empty_element_bundle :: OscBundle where
  "one_empty_element_bundle = snd (OscBundleInitialiseFromCharArray example_limits blank_bundle
     (array_of (empty_bundle_bytes @ [0, 0, 0, 0])) 20)"

definition two_element_bytes :: "byte list" where
  "two_element_bytes = empty_bundle_bytes @ [0, 0, 0, 4] @ ascii ''/abc'' @ [0, 0, 0, 0]"

definition two_element_bundle :: OscBundle where
  "two_element_bundle = snd (OscBundleInitialiseFromCharArray example_limits blank_bundle
     (array_of two_element_bytes) 28)"

definition short_child_bytes :: "byte list" where
  "short_child_bytes = empty_bundle_bytes @ [0, 0, 0, 4] @ ascii ''/abc''"

text \<open>A call of one of the \<^verbatim>\<open>OscMessageAdd...\<close> functions, with the C string or the blob given by its bytes.\<close>

datatype append_call =
    AddInt32 "32 word" | AddFloat32 "32 word" | AddString "byte list" | AddBlob "byte list"
  | AddInt64 "64 word" | AddTimeTag "64 word" | AddDouble "64 word" | AddAlternateString "byte list"
  | AddCharacter byte | AddRgbaColour "32 word" | AddMidiMessage "32 word" | AddBool bool
  | AddNil | AddInfinitum | AddBeginArray | AddEndArray



text \<open>A configuration with room for 4 argument bytes and 4 address characters only.\<close>

definition tiny_limits :: limits where
  "tiny_limits = example_limits\<lparr>MAX_ARGUMENTS_SIZE := 4, MAX_OSC_ADDRESS_PATTERN_LENGTH := 4\<rparr>"


definition pad_string :: "byte list \<Rightarrow> byte list" where
  "pad_string s = s @ replicate (4 - length s mod 4) 0"

definition pad_blob :: "byte list \<Rightarrow> byte list" where
  "pad_blob bs = bs @ replicate (if length bs mod 4 = 0 then 0 else 4 - length bs mod 4) 0"

fun payload :: "append_call \<Rightarrow> byte list" where
  "payload (AddInt32 v) = bytes32 v"
| "payload (AddFloat32 v) = bytes32 v"
| "payload (AddString s) = pad_string s"
| "payload (AddBlob bs) = bytes32 (of_nat (length bs)) @ pad_blob bs"
| "payload (AddInt64 v) = bytes64 v"
| "payload (AddTimeTag v) = bytes64 v"
| "payload (AddDouble v) = bytes64 v"
| "payload (AddAlternateString s) = pad_string s"
| "payload (AddCharacter c) = [0, 0, 0, c]"
| "payload (AddRgbaColour v) = bytes32 v"
| "payload (AddMidiMessage v) = bytes32 v"
| "payload (AddBool v) = []"
| "payload AddNil = []"
| "payload AddInfinitum = []"
| "payload AddBeginArray = []"
| "payload AddEndArray = []"
















text \<open>
  The capacity bounds of section 3.6 of the spec, for an \<^verbatim>\<open>OscMessageAdd...\<close> call.
  \<open>align4\<close> is the alignment of section 4.1: a byte count brought up to the next
  multiple of 4. \<open>size_after\<close> is the size the arguments would have after the call: a
  string is written with its terminator and aligned, a blob is written after its 4-byte
  size and aligned, every other argument adds its 4 or 8 bytes or nothing. A call
  exceeds a bound when the type tag string already holds \<^verbatim>\<open>MAX_NUMBER_OF_ARGUMENTS\<close>
  tags (its length counts the comma), or when the arguments would grow and be larger
  than \<^verbatim>\<open>MAX_ARGUMENTS_SIZE\<close>.
\<close>

definition align4 :: "nat \<Rightarrow> nat" where
  "align4 n = (if n mod 4 = 0 then n else n + (4 - n mod 4))"

fun size_after :: "OscMessage \<Rightarrow> append_call \<Rightarrow> nat" where
  "size_after m (AddString s) = align4 (argumentsSize m + length s + 1)"
| "size_after m (AddAlternateString s) = align4 (argumentsSize m + length s + 1)"
| "size_after m (AddBlob bs) = align4 (argumentsSize m + 4 + length bs)"
| "size_after m c = argumentsSize m + length (payload c)"


text \<open>
  The serialised form of a message structure, as section 4.3 of the spec gives it: the
  address as an OSC string, the type tag string as an OSC string, the argument bytes.
\<close>

definition serialized :: "OscMessage \<Rightarrow> byte list" where
  "serialized m =
     pad_string (bytes_of (oscAddressPattern m) (oscAddressPatternLength m)) @
     pad_string (bytes_of (oscTypeTagString m) (oscTypeTagStringLength m)) @
     bytes_of (arguments m) (argumentsSize m)"

text \<open>A destination that holds no zero byte.\<close>

definition full_array :: carray where
  "full_array = (\<lambda>i. 0xFF)"

section \<open>Properties of the SLIP framer\<close>

lemma bytes_of_Suc: "bytes_of a (Suc n) = bytes_of a n @ [a n]"
  by (simp add: bytes_of_def)

lemma bytes_of_upd_ge: "n \<le> i \<Longrightarrow> bytes_of (a(i := b)) n = bytes_of a n"
  by (simp add: bytes_of_def)

lemma bytes_of_lam_ge: "n \<le> i \<Longrightarrow> bytes_of (\<lambda>a. if a = i then b else f a) n = bytes_of f n"
  by (simp add: bytes_of_def)

lemma bytes_of_eq_iff: "bytes_of a n = bytes_of b n \<longleftrightarrow> (\<forall>i<n. a i = b i)"
  by (auto simp: bytes_of_def)

lemma length_bytes_of [simp]: "length (bytes_of a n) = n"
  by (simp add: bytes_of_def)

lemma encode_loop_bytes:
  "encode_loop p ds i dest n = (0, n', dest') \<Longrightarrow>
   bytes_of dest' n' = bytes_of dest n @ slip_bytes (map (contents p) [i..<packet_size p]) @ [SLIP_END]"
proof (induction p ds i dest n rule: encode_loop.induct)
  case (1 p ds i dest n)
  show ?case
  proof (cases "i < packet_size p")
    case False
    with "1.prems" have "n' = Suc n" "dest' = dest(n := SLIP_END)"
      by simp_all
    with False show ?thesis
      by (simp add: bytes_of_Suc bytes_of_eq_iff)
  next
    case True
    then have upt: "[i..<packet_size p] = i # [i + 1..<packet_size p]"
      by (simp add: upt_conv_Cons)
    from True "1.prems" have fits: "\<not> n + 1 > ds"
      by (auto split: if_splits)
    consider (e) "contents p i = SLIP_END"
      | (s) "contents p i \<noteq> SLIP_END" "contents p i = SLIP_ESC"
      | (o) "contents p i \<noteq> SLIP_END" "contents p i \<noteq> SLIP_ESC"
      by blast
    then show ?thesis
    proof cases
      case e
      with True fits "1.prems" have
        "encode_loop p ds (i + 1) (dest(n := SLIP_ESC, n + 1 := SLIP_ESC_END)) (n + 2) = (0, n', dest')"
        by simp
      from "1.IH"(1)[OF True fits e this] e upt show ?thesis
        by (simp add: bytes_of_Suc bytes_of_eq_iff numeral_2_eq_2)
    next
      case s
      with True fits "1.prems" have
        "encode_loop p ds (i + 1) (dest(n := SLIP_ESC, n + 1 := SLIP_ESC_ESC)) (n + 2) = (0, n', dest')"
        by simp
      from "1.IH"(2)[OF True fits s this] s upt show ?thesis
        by (simp add: bytes_of_Suc bytes_of_eq_iff numeral_2_eq_2)
    next
      case o
      with True fits "1.prems" have
        "encode_loop p ds (i + 1) (dest(n := contents p i)) (n + 1) = (0, n', dest')"
        by simp
      from "1.IH"(3)[OF True fits o this] o upt show ?thesis
        by (simp add: bytes_of_Suc bytes_of_eq_iff)
    qed
  qed
qed


lemma holds_Nil [simp]: "holds a i []"
  by (simp add: holds_def)

lemma holds_Cons: "holds a i (y # ys) \<longleftrightarrow> a i = y \<and> holds a (Suc i) ys"
proof
  assume h: "holds a i (y # ys)"
  have "a i = y" using h by (auto simp: holds_def)
  moreover have "holds a (Suc i) ys"
    unfolding holds_def
  proof (intro allI impI)
    fix j assume "j < length ys"
    with h have "a (i + Suc j) = (y # ys) ! Suc j" unfolding holds_def by (metis Suc_less_eq length_Cons)
    then show "a (Suc i + j) = ys ! j" by simp
  qed
  ultimately show "a i = y \<and> holds a (Suc i) ys" by simp
next
  assume h: "a i = y \<and> holds a (Suc i) ys"
  show "holds a i (y # ys)"
    unfolding holds_def
  proof (intro allI impI)
    fix j assume "j < length (y # ys)"
    then show "a (i + j) = (y # ys) ! j"
      using h by (cases j) (auto simp: holds_def)
  qed
qed

lemma holds_append: "holds a i (xs @ ys) \<longleftrightarrow> holds a i xs \<and> holds a (i + length xs) ys"
  by (induction xs arbitrary: i) (auto simp: holds_Cons)

lemma holds_bytes_of: "holds a 0 ys \<longleftrightarrow> bytes_of a (length ys) = ys"
proof
  assume "holds a 0 ys"
  then show "bytes_of a (length ys) = ys"
    by (intro nth_equalityI) (simp_all add: holds_def bytes_of_def)
next
  assume e: "bytes_of a (length ys) = ys"
  show "holds a 0 ys"
    unfolding holds_def
  proof (intro allI impI)
    fix j assume "j < length ys"
    then have "bytes_of a (length ys) ! j = a j" by (simp add: bytes_of_def)
    with e show "a (0 + j) = ys ! j" by simp
  qed
qed

lemma slip_consts_distinct:
  "SLIP_ESC \<noteq> SLIP_END" "SLIP_ESC_END \<noteq> SLIP_END" "SLIP_ESC_ESC \<noteq> SLIP_END"
  "SLIP_ESC_ESC \<noteq> SLIP_ESC_END"
  "SLIP_END \<noteq> SLIP_ESC" "SLIP_END \<noteq> SLIP_ESC_END" "SLIP_END \<noteq> SLIP_ESC_ESC"
  by (simp_all add: SLIP_END_def SLIP_ESC_def SLIP_ESC_END_def SLIP_ESC_ESC_def)

lemma slip_bytes_no_END: "SLIP_END \<notin> set (slip_bytes xs)"
  by (induction xs) (auto simp: slip_consts_distinct)

lemma put_byte_simps [simp]:
  "packet_size (put_byte q b) = Suc (packet_size q)"
  "processMessage (put_byte q b) = processMessage q"
  "bytes_of (contents (put_byte q b)) (Suc (packet_size q)) = bytes_of (contents q) (packet_size q) @ [b]"
  by (simp_all add: put_byte_def bytes_of_Suc bytes_of_eq_iff)

lemma decode_loop_slip:
  "holds buf i (slip_bytes xs @ [SLIP_END]) \<Longrightarrow>
   packet_size pkt + length xs \<le> MAX_OSC_PACKET_SIZE L \<Longrightarrow>
   \<exists>q. decode_loop L buf i pkt = Some (None, q) \<and>
       packet_size q = packet_size pkt + length xs \<and>
       bytes_of (contents q) (packet_size q) = bytes_of (contents pkt) (packet_size pkt) @ xs \<and>
       processMessage q = processMessage pkt"
proof (induction xs arbitrary: i pkt)
  case Nil
  then have "buf i = SLIP_END" by (simp add: holds_Cons)
  then show ?case by (subst decode_loop.simps) simp
next
  case (Cons x xs)
  consider (e) "x = SLIP_END" | (s) "x \<noteq> SLIP_END" "x = SLIP_ESC"
    | (o) "x \<noteq> SLIP_END" "x \<noteq> SLIP_ESC" by blast
  then show ?case
  proof cases
    case e
    with Cons.prems(1) have b: "buf i = SLIP_ESC" "buf (Suc i) = SLIP_ESC_END"
      and h: "holds buf (Suc (Suc i)) (slip_bytes xs @ [SLIP_END])"
      by (simp_all add: holds_Cons)
    from Cons.prems(2) have sz: "packet_size (put_byte pkt SLIP_END) + length xs \<le> MAX_OSC_PACKET_SIZE L"
      by simp
    from Cons.IH[OF h sz] obtain q where
      q: "decode_loop L buf (Suc (Suc i)) (put_byte pkt SLIP_END) = Some (None, q)"
         "packet_size q = packet_size (put_byte pkt SLIP_END) + length xs"
         "bytes_of (contents q) (packet_size q) =
            bytes_of (contents (put_byte pkt SLIP_END)) (packet_size (put_byte pkt SLIP_END)) @ xs"
         "processMessage q = processMessage (put_byte pkt SLIP_END)"
      by blast
    have "decode_loop L buf i pkt = decode_loop L buf (Suc (Suc i)) (put_byte pkt SLIP_END)"
      using b sz by (subst decode_loop.simps) (simp add: slip_consts_distinct)
    with q e show ?thesis by simp
  next
    case s
    with Cons.prems(1) have b: "buf i = SLIP_ESC" "buf (Suc i) = SLIP_ESC_ESC"
      and h: "holds buf (Suc (Suc i)) (slip_bytes xs @ [SLIP_END])"
      by (simp_all add: holds_Cons)
    from Cons.prems(2) have sz: "packet_size (put_byte pkt SLIP_ESC) + length xs \<le> MAX_OSC_PACKET_SIZE L"
      by simp
    from Cons.IH[OF h sz] obtain q where
      q: "decode_loop L buf (Suc (Suc i)) (put_byte pkt SLIP_ESC) = Some (None, q)"
         "packet_size q = packet_size (put_byte pkt SLIP_ESC) + length xs"
         "bytes_of (contents q) (packet_size q) =
            bytes_of (contents (put_byte pkt SLIP_ESC)) (packet_size (put_byte pkt SLIP_ESC)) @ xs"
         "processMessage q = processMessage (put_byte pkt SLIP_ESC)"
      by blast
    have "decode_loop L buf i pkt = decode_loop L buf (Suc (Suc i)) (put_byte pkt SLIP_ESC)"
      using b sz by (subst decode_loop.simps) (simp add: slip_consts_distinct)
    with q s show ?thesis by simp
  next
    case o
    with Cons.prems(1) have b: "buf i = x"
      and h: "holds buf (Suc i) (slip_bytes xs @ [SLIP_END])"
      by (simp_all add: holds_Cons)
    from Cons.prems(2) have sz: "packet_size (put_byte pkt x) + length xs \<le> MAX_OSC_PACKET_SIZE L"
      by simp
    from Cons.IH[OF h sz] obtain q where
      q: "decode_loop L buf (Suc i) (put_byte pkt x) = Some (None, q)"
         "packet_size q = packet_size (put_byte pkt x) + length xs"
         "bytes_of (contents q) (packet_size q) =
            bytes_of (contents (put_byte pkt x)) (packet_size (put_byte pkt x)) @ xs"
         "processMessage q = processMessage (put_byte pkt x)"
      by blast
    have "decode_loop L buf i pkt = decode_loop L buf (Suc i) (put_byte pkt x)"
      using b o sz by (subst decode_loop.simps) simp
    with q o show ?thesis by simp
  qed
qed


lemma holds_upd_ge: "i + length ys \<le> k \<Longrightarrow> holds (a(k := v)) i ys \<longleftrightarrow> holds a i ys"
  by (auto simp: holds_def)

lemma feed_append:
  "feed L local d (as @ bs) =
     (case feed L local d as of
        None \<Rightarrow> None
      | Some (d', ps) \<Rightarrow>
          (case feed L local d' bs of
             None \<Rightarrow> None
           | Some (d'', ps') \<Rightarrow> Some (d'', ps @ ps')))"
  by (induction as arbitrary: d) (auto split: option.splits)

lemma ProcessByte_plain:
  "b \<noteq> SLIP_END \<Longrightarrow> bufferIndex d + 1 < OSC_SLIP_DECODER_BUFFER_SIZE L \<Longrightarrow>
   OscSlipDecoderProcessByte L local d b =
     Some (0, d\<lparr>buffer := (buffer d)(bufferIndex d := b), bufferIndex := bufferIndex d + 1\<rparr>, [])"
  by (simp add: OscSlipDecoderProcessByte_def Let_def)

lemma feed_plain:
  "SLIP_END \<notin> set bs \<Longrightarrow> bufferIndex d + length bs < OSC_SLIP_DECODER_BUFFER_SIZE L \<Longrightarrow>
   \<exists>d'. feed L local d bs = Some (d', []) \<and> bufferIndex d' = bufferIndex d + length bs \<and>
        processPacket d' = processPacket d \<and> holds (buffer d') (bufferIndex d) bs \<and>
        (\<forall>j<bufferIndex d. buffer d' j = buffer d j)"
proof (induction bs arbitrary: d)
  case Nil
  then show ?case by simp
next
  case (Cons b bs)
  define d1 where "d1 = d\<lparr>buffer := (buffer d)(bufferIndex d := b), bufferIndex := bufferIndex d + 1\<rparr>"
  from Cons.prems have step: "OscSlipDecoderProcessByte L local d b = Some (0, d1, [])"
    unfolding d1_def by (intro ProcessByte_plain) auto
  from Cons.prems have "SLIP_END \<notin> set bs" "bufferIndex d1 + length bs < OSC_SLIP_DECODER_BUFFER_SIZE L"
    by (simp_all add: d1_def)
  from Cons.IH[OF this] obtain d' where
    d': "feed L local d1 bs = Some (d', [])" "bufferIndex d' = bufferIndex d1 + length bs"
        "processPacket d' = processPacket d1" "holds (buffer d') (bufferIndex d1) bs"
        "\<forall>j<bufferIndex d1. buffer d' j = buffer d1 j"
    by blast
  have "feed L local d (b # bs) = Some (d', [])"
    using step d'(1) by simp
  moreover have "bufferIndex d' = bufferIndex d + length (b # bs)"
    using d'(2) by (simp add: d1_def)
  moreover have "processPacket d' = processPacket d"
    using d'(3) by (simp add: d1_def)
  moreover have "buffer d' (bufferIndex d) = b"
    using d'(5) by (simp add: d1_def)
  moreover have "holds (buffer d') (Suc (bufferIndex d)) bs"
    using d'(4) by (simp add: d1_def)
  moreover have "\<forall>j<bufferIndex d. buffer d' j = buffer d j"
    using d'(5) by (simp add: d1_def)
  ultimately show ?case
    by (simp add: holds_Cons)
qed

lemma ProcessByte_END:
  assumes "processPacket d" "holds (buffer d) 0 (slip_bytes xs)"
    "bufferIndex d = length (slip_bytes xs)" "length xs \<le> MAX_OSC_PACKET_SIZE L"
  shows "\<exists>d' q. OscSlipDecoderProcessByte L local d SLIP_END = Some (0, d', [q]) \<and>
           bufferIndex d' = 0 \<and> packet_size q = length xs \<and>
           bytes_of (contents q) (packet_size q) = xs"
proof -
  let ?buf = "(buffer d)(bufferIndex d := SLIP_END)"
  have "holds ?buf 0 (slip_bytes xs @ [SLIP_END])"
    using assms(2,3) by (simp add: holds_append holds_upd_ge holds_Cons)
  moreover have "packet_size (OscPacketInitialise local) + length xs \<le> MAX_OSC_PACKET_SIZE L"
    using assms(4) by (simp add: OscPacketInitialise_def)
  ultimately obtain q where
    q: "decode_loop L ?buf 0 (OscPacketInitialise local) = Some (None, q)"
       "packet_size q = packet_size (OscPacketInitialise local) + length xs"
       "bytes_of (contents q) (packet_size q) =
          bytes_of (contents (OscPacketInitialise local)) (packet_size (OscPacketInitialise local)) @ xs"
    using decode_loop_slip by blast
  from q(2) have "packet_size q = length xs" by (simp add: OscPacketInitialise_def)
  moreover from q(3) have "bytes_of (contents q) (packet_size q) = xs"
    by (simp add: OscPacketInitialise_def bytes_of_def)
  ultimately show ?thesis
    using q(1) assms(1) by (simp add: OscSlipDecoderProcessByte_def Let_def)
qed

text \<open>
  Claim C3. A packet is encoded with \<^verbatim>\<open>OscSlipEncodePacket\<close>; the encoding (with its final
  END) is no longer than the decoder's buffer and the packet is no larger than
  \<^verbatim>\<open>MAX_OSC_PACKET_SIZE\<close>. Feeding the encoded bytes one at a time to a decoder that was
  initialised and then given a ProcessPacket function calls that function exactly once,
  with a packet of the same size and the same contents.
\<close>

theorem slip_round_trip:
  assumes enc: "OscSlipEncodePacket p dest destinationSize = (0, n, dest')"
    and fits: "n \<le> OSC_SLIP_DECODER_BUFFER_SIZE L"
    and small: "packet_size p \<le> MAX_OSC_PACKET_SIZE L"
  shows "\<exists>d' q. feed L local ((OscSlipDecoderInitialise d)\<lparr>processPacket := True\<rparr>) (bytes_of dest' n)
             = Some (d', [q]) \<and>
           packet_size q = packet_size p \<and>
           bytes_of (contents q) (packet_size q) = bytes_of (contents p) (packet_size p)"
proof -
  let ?xs = "bytes_of (contents p) (packet_size p)"
  let ?d0 = "(OscSlipDecoderInitialise d)\<lparr>processPacket := True\<rparr>"
  from enc have bytes: "bytes_of dest' n = slip_bytes ?xs @ [SLIP_END]"
    using encode_loop_bytes[of p destinationSize 0 dest 0 n dest']
    by (simp add: OscSlipEncodePacket_def bytes_of_def)
  then have "length (bytes_of dest' n) = length (slip_bytes ?xs) + 1" by simp
  then have n: "n = length (slip_bytes ?xs) + 1" by simp
  have "bufferIndex ?d0 + length (slip_bytes ?xs) < OSC_SLIP_DECODER_BUFFER_SIZE L"
    using n fits by (simp add: OscSlipDecoderInitialise_def)
  with slip_bytes_no_END obtain d1 where
    d1: "feed L local ?d0 (slip_bytes ?xs) = Some (d1, [])"
        "bufferIndex d1 = bufferIndex ?d0 + length (slip_bytes ?xs)"
        "processPacket d1 = processPacket ?d0"
        "holds (buffer d1) (bufferIndex ?d0) (slip_bytes ?xs)"
    using feed_plain[of "slip_bytes ?xs" ?d0 L local] by blast
  have i0: "bufferIndex ?d0 = 0" by (simp add: OscSlipDecoderInitialise_def)
  have "processPacket d1" using d1(3) by simp
  moreover have "holds (buffer d1) 0 (slip_bytes ?xs)" using d1(4) i0 by simp
  moreover have "bufferIndex d1 = length (slip_bytes ?xs)" using d1(2) i0 by simp
  moreover have "length ?xs \<le> MAX_OSC_PACKET_SIZE L" using small by simp
  ultimately obtain d' q where
    q: "OscSlipDecoderProcessByte L local d1 SLIP_END = Some (0, d', [q])"
       "packet_size q = length ?xs" "bytes_of (contents q) (packet_size q) = ?xs"
    using ProcessByte_END[of d1 ?xs L local] by blast
  have "feed L local ?d0 (bytes_of dest' n) = Some (d', [q])"
    unfolding bytes by (simp add: feed_append d1(1) q(1))
  with q(2,3) show ?thesis by auto
qed

lemmas slip_defs = SLIP_END_def SLIP_ESC_def SLIP_ESC_END_def SLIP_ESC_ESC_def

theorem slip_round_trip_witness:
  "OscSlipEncodePacket (packet_of [0xC0, 0xDB, 0x01]) zero_array 6
     = (0, 6, snd (snd (OscSlipEncodePacket (packet_of [0xC0, 0xDB, 0x01]) zero_array 6))) \<and>
   6 \<le> OSC_SLIP_DECODER_BUFFER_SIZE example_limits \<and>
   packet_size (packet_of [0xC0, 0xDB, 0x01]) \<le> MAX_OSC_PACKET_SIZE example_limits \<and>
   (\<exists>d' q. feed example_limits (packet_of []) ((OscSlipDecoderInitialise ready_decoder)\<lparr>processPacket := True\<rparr>)
              (bytes_of (snd (snd (OscSlipEncodePacket (packet_of [0xC0, 0xDB, 0x01]) zero_array 6))) 6)
             = Some (d', [q]) \<and>
           packet_size q = packet_size (packet_of [0xC0, 0xDB, 0x01]) \<and>
           bytes_of (contents q) (packet_size q)
             = bytes_of (contents (packet_of [0xC0, 0xDB, 0x01])) (packet_size (packet_of [0xC0, 0xDB, 0x01])))"
proof -
  have "fst (OscSlipEncodePacket (packet_of [0xC0, 0xDB, 0x01]) zero_array 6) = 0"
    "fst (snd (OscSlipEncodePacket (packet_of [0xC0, 0xDB, 0x01]) zero_array 6)) = 6"
    by (simp_all add: OscSlipEncodePacket_def packet_of_def array_of_def slip_defs)
  then have enc: "OscSlipEncodePacket (packet_of [0xC0, 0xDB, 0x01]) zero_array 6
     = (0, 6, snd (snd (OscSlipEncodePacket (packet_of [0xC0, 0xDB, 0x01]) zero_array 6)))"
    by (metis prod.collapse)
  have fits: "6 \<le> OSC_SLIP_DECODER_BUFFER_SIZE example_limits"
    by (simp add: OSC_SLIP_DECODER_BUFFER_SIZE_def example_limits_def)
  have small: "packet_size (packet_of [0xC0, 0xDB, 0x01]) \<le> MAX_OSC_PACKET_SIZE example_limits"
    by (simp add: packet_of_def example_limits_def)
  from slip_round_trip[OF enc fits small, of "packet_of []" ready_decoder] enc fits small
  show ?thesis by blast
qed

text \<open>
  Claim C6. The encoder checks only that one more byte fits before each packet byte,
  and does not check before the final END. For the one-byte packet \<open>01\<close> and a
  destination of size 1 it returns 0, reports 2 bytes, and has stored END at index 1,
  which is outside the first \<open>destinationSize\<close> bytes.
\<close>

theorem OscSlipEncodePacket_overrun:
  "OscSlipEncodePacket (packet_of [0x01]) zero_array 1 = (0, 2, zero_array(0 := 0x01, 1 := SLIP_END))"
  by (simp add: OscSlipEncodePacket_def packet_of_def array_of_def slip_defs)

text \<open>
  Claim C8, as stated, fails: an END received at buffer index 0 by a decoder with a
  ProcessPacket function makes one call of that function, with a packet of size 0.
\<close>

theorem empty_frame_counterexample:
  "map packet_size (calls_of (OscSlipDecoderProcessByte example_limits (packet_of []) ready_decoder SLIP_END)) = [0]"
  by (simp add: OscSlipDecoderProcessByte_def Let_def ready_decoder_def OscSlipDecoderInitialise_def
      decode_loop.simps calls_of_def OscPacketInitialise_def packet_of_def
      OSC_SLIP_DECODER_BUFFER_SIZE_def example_limits_def)

text \<open>
  Claim C8, amended. When an END is received as the first byte of a frame (buffer index
  0) and a ProcessPacket function is assigned, the decoder returns 0, resets its buffer
  index to 0, and calls ProcessPacket exactly once, with an empty packet (size 0).
\<close>

theorem empty_frame_delivered:
  assumes "bufferIndex d = 0" "processPacket d"
  shows "\<exists>d' q. OscSlipDecoderProcessByte L local d SLIP_END = Some (0, d', [q]) \<and>
           bufferIndex d' = 0 \<and> packet_size q = 0"
  using ProcessByte_END[of d "[]" L local] assms by auto

theorem empty_frame_delivered_witness:
  "bufferIndex ready_decoder = 0 \<and> processPacket ready_decoder \<and>
   (\<exists>d' q. OscSlipDecoderProcessByte example_limits (packet_of []) ready_decoder SLIP_END = Some (0, d', [q]) \<and>
           bufferIndex d' = 0 \<and> packet_size q = 0)"
proof -
  have a: "bufferIndex ready_decoder = 0" and b: "processPacket ready_decoder"
    by (simp_all add: ready_decoder_def OscSlipDecoderInitialise_def)
  from empty_frame_delivered[OF a b] a b show ?thesis by blast
qed

section \<open>Properties of packets, bundles and the visitor\<close>

lemma OscPacketInitialiseFromContents_nonzero:
  "OscPacketInitialiseFromContents L p c \<noteq> Some (0, q)"
  by (auto simp: OscPacketInitialiseFromContents_def Let_def split: option.splits prod.splits OscContents.splits if_splits)

lemmas tag_defs = OscContentsTypeMessage_def OscContentsTypeBundle_def comma_def

lemma example_message_fields:
  "oscAddressPatternLength (message_of ''/example'') = 8"
  "oscTypeTagStringLength (message_of ''/example'') = 1"
  "argumentsSize (message_of ''/example'') = 0"
  "bytes_of (oscAddressPattern (message_of ''/example'')) 8 = ascii ''/example''"
  by (simp_all add: message_of_def OscMessageInitialise_def OscMessageSetAddressPattern_def
      OscMessageAppendAddressPattern_def blank_message_def zero_array_def array_of_def ascii_def
      example_limits_def tag_defs Let_def bytes_of_def upt_rec)

lemmas eval_msg = message_of_def OscMessageInitialise_def OscMessageSetAddressPattern_def
      OscMessageAppendAddressPattern_def blank_message_def zero_array_def array_of_def ascii_def
      example_limits_def tag_defs Let_def

text \<open>
  Claim C2. For the message \<^verbatim>\<open>/example\<close> without arguments the serialisation into the
  packet succeeds (\<^verbatim>\<open>OscMessageToCharArray\<close> returns 0) and the packet holds its 16
  bytes, but \<^verbatim>\<open>OscPacketInitialiseFromContents\<close> returns 1, not 0. By the lemma above it
  never returns 0.
\<close>

theorem OscPacketInitialiseFromContents_returns_1:
  "fst (OscMessageToCharArray (message_of ''/example'') zero_array (MAX_OSC_PACKET_SIZE example_limits)) = 0 \<and>
   map_option fst (OscPacketInitialiseFromContents example_limits (packet_of [])
      (IsMessage (message_of ''/example''))) = Some 1 \<and>
   map_option (\<lambda>r. bytes_of (contents (snd r)) (packet_size (snd r)))
     (OscPacketInitialiseFromContents example_limits (packet_of []) (IsMessage (message_of ''/example'')))
     = Some (ascii ''/example'' @ [0, 0, 0, 0, 0x2C, 0, 0, 0])"
  by (simp add: OscPacketInitialiseFromContents_def OscMessageToCharArray_def eval_msg
      OSC_CONTENTS_IS_MESSAGE_def OSC_CONTENTS_IS_BUNDLE_def packet_of_def bytes_of_def upt_rec)

lemma OscBundleInitialiseFromCharArray_16:
  "MIN_OSC_BUNDLE_SIZE L \<le> 16 \<Longrightarrow> 16 \<le> MAX_OSC_BUNDLE_SIZE L \<Longrightarrow> source 0 = OscContentsTypeBundle \<Longrightarrow>
   fst (OscBundleInitialiseFromCharArray L b source 16) = 0 \<and>
   oscBundleElementsSize (snd (OscBundleInitialiseFromCharArray L b source 16)) = 1"
  by (simp add: OscBundleInitialiseFromCharArray_def)

text \<open>
  Claim C9. Parsing the 16-byte bundle (header and time tag, no elements) returns 0,
  but the element copy is a do-while loop that runs once: the bundle's element size is
  1, not 0, and its size is 17, not 16.
\<close>

theorem parse_empty_bundle_has_one_element_byte:
  "fst (OscBundleInitialiseFromCharArray example_limits blank_bundle (array_of empty_bundle_bytes) 16) = 0 \<and>
   oscBundleElementsSize (snd (OscBundleInitialiseFromCharArray example_limits blank_bundle
      (array_of empty_bundle_bytes) 16)) = 1 \<and>
   OscBundleGetSize (snd (OscBundleInitialiseFromCharArray example_limits blank_bundle
      (array_of empty_bundle_bytes) 16)) = 17"
  by (simp add: OscBundleInitialiseFromCharArray_def OscBundleGetSize_def example_limits_def
      array_of_def empty_bundle_bytes_def OSC_BUNDLE_HEADER_def tag_defs)

text \<open>
  Claim C7, as stated, fails: in the bundle parsed from a header, a time tag and the
  four bytes \<open>00 00 00 00\<close>, exactly 4 bytes remain past the cursor and they hold
  the size prefix 0, and \<^verbatim>\<open>OscBundleGetBundleElement\<close> returns 1.
\<close>

theorem last_four_bytes_counterexample:
  "oscBundleElementsSize one_empty_element_bundle - oscBundleElementsIndex one_empty_element_bundle = 4 \<and>
   map (oscBundleElements one_empty_element_bundle) [0..<4] = [0, 0, 0, 0] \<and>
   fst (OscBundleGetBundleElement one_empty_element_bundle blank_element) = 1"
  by (simp add: one_empty_element_bundle_def OscBundleInitialiseFromCharArray_def
      OscBundleGetBundleElement_def example_limits_def
      array_of_def empty_bundle_bytes_def OSC_BUNDLE_HEADER_def tag_defs upt_rec)

text \<open>
  Claim C7, amended. When more than 4 bytes remain past the cursor and the big-endian
  int32 read there is non-negative, a multiple of 4 and does not extend past the
  element region, \<^verbatim>\<open>OscBundleGetBundleElement\<close> returns 0, yields that size and the
  contents that follow the size, and advances the cursor past them. When 4 bytes or
  fewer remain (exactly 4: a size prefix with no contents), it returns 1 and changes
  neither the bundle nor the element.
\<close>

theorem OscBundleGetBundleElement_succeeds:
  "(oscBundleElementsIndex b + 4 < oscBundleElementsSize b \<and>
    sz = word_of_bytes (map (\<lambda>i. oscBundleElements b (oscBundleElementsIndex b + i)) [0..<4]) \<and>
    0 \<le> sint sz \<and> sint sz mod 4 = 0 \<and>
    oscBundleElementsIndex b + 4 + nat (sint sz) \<le> oscBundleElementsSize b \<longrightarrow>
    OscBundleGetBundleElement b e =
      (0, b\<lparr>oscBundleElementsIndex := oscBundleElementsIndex b + 4 + nat (sint sz)\<rparr>,
       e\<lparr>element_size := sz,
         element_contents := (\<lambda>i. oscBundleElements b (oscBundleElementsIndex b + 4 + i))\<rparr>)) \<and>
   (oscBundleElementsSize b \<le> oscBundleElementsIndex b + 4 \<longrightarrow>
    OscBundleGetBundleElement b e = (1, b, e))"
proof (intro conjI impI)
  assume "oscBundleElementsIndex b + 4 < oscBundleElementsSize b \<and>
    sz = word_of_bytes (map (\<lambda>i. oscBundleElements b (oscBundleElementsIndex b + i)) [0..<4]) \<and>
    0 \<le> sint sz \<and> sint sz mod 4 = 0 \<and>
    oscBundleElementsIndex b + 4 + nat (sint sz) \<le> oscBundleElementsSize b"
  then have "oscBundleElementsIndex b + 4 < oscBundleElementsSize b"
    and "sz = word_of_bytes (map (\<lambda>i. oscBundleElements b (oscBundleElementsIndex b + i)) [0..<4])"
    and "0 \<le> sint sz" and "sint sz mod 4 = 0"
    and "oscBundleElementsIndex b + 4 + nat (sint sz) \<le> oscBundleElementsSize b"
    by blast+
  then show "OscBundleGetBundleElement b e =
      (0, b\<lparr>oscBundleElementsIndex := oscBundleElementsIndex b + 4 + nat (sint sz)\<rparr>,
       e\<lparr>element_size := sz,
         element_contents := (\<lambda>i. oscBundleElements b (oscBundleElementsIndex b + 4 + i))\<rparr>)"
    by (simp add: OscBundleGetBundleElement_def Let_def)
next
  assume "oscBundleElementsSize b \<le> oscBundleElementsIndex b + 4"
  then show "OscBundleGetBundleElement b e = (1, b, e)"
    by (simp add: OscBundleGetBundleElement_def)
qed

theorem OscBundleGetBundleElement_succeeds_witness:
  "oscBundleElementsIndex two_element_bundle + 4 < oscBundleElementsSize two_element_bundle \<and>
   (4 :: 32 word) = word_of_bytes (map (\<lambda>i. oscBundleElements two_element_bundle
        (oscBundleElementsIndex two_element_bundle + i)) [0..<4]) \<and>
   0 \<le> sint (4 :: 32 word) \<and> sint (4 :: 32 word) mod 4 = 0 \<and>
   oscBundleElementsIndex two_element_bundle + 4 + nat (sint (4 :: 32 word))
     \<le> oscBundleElementsSize two_element_bundle \<and>
   OscBundleGetBundleElement two_element_bundle blank_element =
     (0, two_element_bundle\<lparr>oscBundleElementsIndex :=
            oscBundleElementsIndex two_element_bundle + 4 + nat (sint (4 :: 32 word))\<rparr>,
      blank_element\<lparr>element_size := 4,
        element_contents := (\<lambda>i. oscBundleElements two_element_bundle
            (oscBundleElementsIndex two_element_bundle + 4 + i))\<rparr>) \<and>
   oscBundleElementsSize one_empty_element_bundle = oscBundleElementsIndex one_empty_element_bundle + 4 \<and>
   OscBundleGetBundleElement one_empty_element_bundle blank_element
     = (1, one_empty_element_bundle, blank_element)"
proof -
  have a: "oscBundleElementsIndex two_element_bundle + 4 < oscBundleElementsSize two_element_bundle"
    by (simp add: two_element_bundle_def two_element_bytes_def OscBundleInitialiseFromCharArray_def
        example_limits_def array_of_def empty_bundle_bytes_def OSC_BUNDLE_HEADER_def tag_defs ascii_def)
  have b: "(4 :: 32 word) = word_of_bytes (map (\<lambda>i. oscBundleElements two_element_bundle
        (oscBundleElementsIndex two_element_bundle + i)) [0..<4])"
    by (simp add: two_element_bundle_def two_element_bytes_def OscBundleInitialiseFromCharArray_def
        example_limits_def array_of_def empty_bundle_bytes_def OSC_BUNDLE_HEADER_def tag_defs ascii_def
        upt_rec)
  have c: "0 \<le> sint (4 :: 32 word)" and d: "sint (4 :: 32 word) mod 4 = 0"
    by simp_all
  have e: "oscBundleElementsIndex two_element_bundle + 4 + nat (sint (4 :: 32 word))
     \<le> oscBundleElementsSize two_element_bundle"
    by (simp add: two_element_bundle_def two_element_bytes_def OscBundleInitialiseFromCharArray_def
        example_limits_def array_of_def empty_bundle_bytes_def OSC_BUNDLE_HEADER_def tag_defs ascii_def)
  have f: "oscBundleElementsSize one_empty_element_bundle = oscBundleElementsIndex one_empty_element_bundle + 4"
    by (simp add: one_empty_element_bundle_def OscBundleInitialiseFromCharArray_def
        example_limits_def array_of_def empty_bundle_bytes_def OSC_BUNDLE_HEADER_def tag_defs)
  from OscBundleGetBundleElement_succeeds[of two_element_bundle 4 blank_element]
    OscBundleGetBundleElement_succeeds[of one_empty_element_bundle 0 blank_element] a b c d e f
  show ?thesis by simp
qed

lemma DeconstructContents_message_returns_0:
  "contentsSize \<noteq> 0 \<Longrightarrow> OSC_CONTENTS_IS_MESSAGE (c 0) \<Longrightarrow>
   DeconstructContents (Suc fuel) L lm lb le t c contentsSize =
     Some (0, [(t, snd (OscMessageInitialiseFromCharArray L lm c contentsSize))])"
  by simp

text \<open>
  Claim C4. The 4-byte contents \<^verbatim>\<open>/abc\<close> is not a message (\<^verbatim>\<open>OscMessageInitialiseFromCharArray\<close>
  returns 1). As a packet, and as the only element of a bundle, the walk still calls
  ProcessMessage once and returns 0: the parse failure is not returned.
\<close>

theorem visitor_ignores_parse_failure:
  "fst (OscMessageInitialiseFromCharArray example_limits blank_message (array_of (ascii ''/abc'')) 4) = 1 \<and>
   map_option (\<lambda>r. (fst r, length (snd r)))
     (OscPacketProcessMessages (Suc (Suc (Suc 0))) example_limits blank_message blank_bundle blank_element
        ((packet_of (ascii ''/abc''))\<lparr>processMessage := True\<rparr>)) = Some (0, 1) \<and>
   map_option (\<lambda>r. (fst r, length (snd r)))
     (OscPacketProcessMessages (Suc (Suc (Suc 0))) example_limits blank_message blank_bundle blank_element
        ((packet_of short_child_bytes)\<lparr>processMessage := True\<rparr>)) = Some (0, 1)"
  by (simp add: OscPacketProcessMessages_def packet_of_def short_child_bytes_def upt_rec blank_bundle_def
      OSC_CONTENTS_IS_MESSAGE_def OSC_CONTENTS_IS_BUNDLE_def
      OscMessageInitialiseFromCharArray_def OscBundleInitialiseFromCharArray_def
      OscBundleIsBundleElementAvailable_def OscBundleGetBundleElement_def
      empty_bundle_bytes_def OSC_BUNDLE_HEADER_def eval_msg)

section \<open>Properties of message construction and serialisation\<close>

lemma copy_bytes_apply:
  "copy_bytes dst d src s n i = (if d \<le> i \<and> i < d + n then src (s + (i - d)) else dst i)"
proof (induction n arbitrary: dst d s)
  case 0
  then show ?case by auto
next
  case (Suc n)
  have "copy_bytes dst d src s (Suc n) i =
          (if Suc d \<le> i \<and> i < Suc d + n then src (Suc s + (i - Suc d)) else (dst(d := src s)) i)"
    by (simp add: Suc.IH)
  also have "\<dots> = (if d \<le> i \<and> i < d + Suc n then src (s + (i - d)) else dst i)"
  proof (cases "Suc d \<le> i \<and> i < Suc d + n")
    case True
    then have "Suc s + (i - Suc d) = s + (i - d)" by arith
    with True show ?thesis by simp
  next
    case False
    then show ?thesis by auto
  qed
  finally show ?case .
qed


lemma TerminateOscString_ok:
  "TerminateOscString s n mx = (0, s', n') \<Longrightarrow>
   n' = n + (4 - n mod 4) \<and> n' \<le> mx \<and> (\<forall>i. s' i = (if n \<le> i \<and> i < n' then 0 else s i))"
proof (induction s n mx arbitrary: s' n' rule: TerminateOscString.induct)
  case (1 s n mx)
  show ?case
  proof (cases "n \<ge> mx")
    case True
    with "1.prems" show ?thesis by simp
  next
    case False
    show ?thesis
    proof (cases "(n + 1) mod 4 \<noteq> 0")
      case True
      with False "1.prems" have "TerminateOscString (s(n := 0)) (n + 1) mx = (0, s', n')"
        by simp
      from "1.IH"[OF False True this]
      have a: "n' = n + 1 + (4 - (n + 1) mod 4)" "n' \<le> mx"
        and b: "\<forall>i. s' i = (if n + 1 \<le> i \<and> i < n' then 0 else (s(n := 0)) i)"
        by simp_all
      from a(1) True have "n' = n + (4 - n mod 4)" by presburger
      moreover from b a(1) have "\<forall>i. s' i = (if n \<le> i \<and> i < n' then 0 else s i)"
        by auto
      ultimately show ?thesis using a(2) by simp
    next
      case f: False
      with False "1.prems" have e: "s' = s(n := 0)" "n' = n + 1" by auto
      from f have "n + 1 = n + (4 - n mod 4)" by presburger
      with e False show ?thesis by auto
    qed
  qed
qed

lemma round_up_4:
  "(if (x + 1) mod 4 \<noteq> 0 then x + 1 + (4 - (x + 1) mod 4) else x + 1) = x + (4 - x mod 4)"
  for x :: nat
  by presburger








lemma failed_AddString_scratch:
  "fst (OscMessageAddString tiny_limits (message_of ''/a'') (array_of (ascii ''hello''))) = 1 \<and>
   arguments (message_of ''/a'') 0 = 0 \<and>
   arguments (snd (OscMessageAddString tiny_limits (message_of ''/a'') (array_of (ascii ''hello'')))) 0 = 0x68"
  by (simp add: OscMessageAddString_def tiny_limits_def eval_msg)

section \<open>The message round trip\<close>






lemma holds_iff: "holds a i ys \<longleftrightarrow> (\<forall>j<length ys. a (i + j) = ys ! j)"
  by (simp add: holds_def)

lemma holds_array_of [simp]: "holds (array_of xs) 0 xs"
  by (simp add: holds_def array_of_def)

lemma holds_cong: "\<forall>j. i \<le> j \<and> j < i + length ys \<longrightarrow> a j = b j \<Longrightarrow> holds a i ys \<longleftrightarrow> holds b i ys"
  by (auto simp: holds_def)

lemma holds_replicate: "holds a i (replicate n x) \<longleftrightarrow> (\<forall>j. i \<le> j \<and> j < i + n \<longrightarrow> a j = x)"
proof
  assume h: "holds a i (replicate n x)"
  show "\<forall>j. i \<le> j \<and> j < i + n \<longrightarrow> a j = x"
  proof (intro allI impI)
    fix j assume j: "i \<le> j \<and> j < i + n"
    then have lt: "j - i < n" by (simp add: less_diff_conv2)
    then have "j - i < length (replicate n x)" by simp
    with h have "a (i + (j - i)) = replicate n x ! (j - i)" unfolding holds_def by blast
    with j lt show "a j = x" by simp
  qed
next
  assume "\<forall>j. i \<le> j \<and> j < i + n \<longrightarrow> a j = x"
  then show "holds a i (replicate n x)" by (simp add: holds_def)
qed

lemma holdsI: "(\<And>j. j < length ys \<Longrightarrow> a (i + j) = ys ! j) \<Longrightarrow> holds a i ys"
  by (simp add: holds_def)










lemma r4: "(n + (4 - n mod 4)) mod 4 = 0" for n :: nat
  by presburger

lemma mod4_add: "a mod 4 = 0 \<Longrightarrow> (a + b) mod 4 = b mod 4" for a :: nat
  by presburger


lemma length_pad_string: "length (pad_string s) = length s + (4 - length s mod 4)"
  by (simp add: pad_string_def)



lemma length_bytes32 [simp]: "length (bytes32 v) = 4"
  by (simp add: bytes32_def)

lemma length_bytes64 [simp]: "length (bytes64 v) = 8"
  by (simp add: bytes64_def)


































section \<open>Capacity refusal\<close>

lemma align4_Suc: "align4 (n + 1) = n + (4 - n mod 4)"
  unfolding align4_def using round_up_4[of n] by (simp split: if_splits)










lemma size_after_aligned:
  assumes "argumentsSize m mod 4 = 0"
  shows "size_after m c = argumentsSize m + length (payload c)"
proof -
  have s: "align4 (argumentsSize m + length s + 1) = argumentsSize m + length (pad_string s)" for s
  proof -
    have "align4 (argumentsSize m + length s + 1) = argumentsSize m + length s + (4 - (argumentsSize m + length s) mod 4)"
      by (rule align4_Suc)
    also from assms have "(argumentsSize m + length s) mod 4 = length s mod 4" by (rule mod4_add)
    finally show ?thesis by (simp add: length_pad_string)
  qed
  have b: "align4 (argumentsSize m + 4 + length bs) = argumentsSize m + 4 + length (pad_blob bs)" for bs
  proof -
    from assms have "(argumentsSize m + 4) mod 4 = 0" by presburger
    then have "(argumentsSize m + 4 + length bs) mod 4 = length bs mod 4" by (rule mod4_add)
    then show ?thesis by (simp add: align4_def pad_blob_def)
  qed
  show ?thesis by (cases c) (simp_all add: s[simplified] b)
qed





lemma failed_AppendAddressPattern_keeps_part:
  "fst (OscMessageAppendAddressPattern tiny_limits (message_of ''/a'') (array_of (ascii ''/bcd''))) = 1 \<and>
   oscAddressPatternLength (message_of ''/a'') = 2 \<and>
   oscAddressPatternLength (snd (OscMessageAppendAddressPattern tiny_limits (message_of ''/a'')
      (array_of (ascii ''/bcd'')))) = 4 \<and>
   bytes_of (oscAddressPattern (snd (OscMessageAppendAddressPattern tiny_limits (message_of ''/a'')
      (array_of (ascii ''/bcd''))))) 4 = ascii ''/a/b''"
  by (simp add: tiny_limits_def eval_msg bytes_of_def upt_rec)



section \<open>The bytes written by the serialiser\<close>

lemma bytes_of_nth: "j < n \<Longrightarrow> bytes_of a n ! j = a j"
  by (simp add: bytes_of_def)

lemma holds_bytes_of_at: "(\<And>j. j < n \<Longrightarrow> a (i + j) = b j) \<Longrightarrow> holds a i (bytes_of b n)"
  by (rule holdsI) (simp add: bytes_of_nth)

text \<open>
  Claim C10. When \<^verbatim>\<open>OscMessageToCharArray\<close> succeeds, the size it reports is the value of
  \<^verbatim>\<open>OscMessageGetSize\<close> and fits the destination; the destination then holds, from
  index 0 and whatever it held before, exactly the serialised message, which has that
  many bytes; and no byte at or beyond that size is written. So the bytes written are
  exactly \<^verbatim>\<open>OscMessageGetSize\<close> many.
\<close>

theorem OscMessageGetSize_is_serialized_size:
  assumes "OscMessageToCharArray m destination destinationSize = (0, n, destination')"
  shows "n = OscMessageGetSize m \<and> n \<le> destinationSize \<and>
         bytes_of destination' n = serialized m \<and>
         (\<forall>i\<ge>n. destination' i = destination i)"
proof -
  let ?a = "oscAddressPatternLength m" and ?t = "oscTypeTagStringLength m"
  let ?d1 = "copy_bytes destination 0 (oscAddressPattern m) 0 ?a"
  obtain r2 d2 size2 where t1: "TerminateOscString ?d1 ?a destinationSize = (r2, d2, size2)"
    by (metis prod_cases3)
  let ?d3 = "copy_bytes d2 size2 (oscTypeTagString m) 0 ?t"
  obtain r4 d4 size4 where t2: "TerminateOscString ?d3 (size2 + ?t) destinationSize = (r4, d4, size4)"
    by (metis prod_cases3)
  from assms have all: "r2 = 0 \<and> r4 = 0 \<and> n = size4 + argumentsSize m \<and> n \<le> destinationSize \<and>
      destination' = copy_bytes d4 size4 (arguments m) 0 (argumentsSize m)"
    by (simp add: OscMessageToCharArray_def Let_def t1 t2 del: TerminateOscString.simps split: if_splits)
  then have r: "r2 = 0" "r4 = 0"
    and n: "n = size4 + argumentsSize m" "n \<le> destinationSize"
    and d: "destination' = copy_bytes d4 size4 (arguments m) 0 (argumentsSize m)"
    by simp_all
  define pa where "pa = 4 - ?a mod 4"
  define pt where "pt = 4 - ?t mod 4"
  from TerminateOscString_ok[OF t1[unfolded r]]
  have s2: "size2 = ?a + pa" and m2: "\<forall>i. d2 i = (if ?a \<le> i \<and> i < size2 then 0 else ?d1 i)"
    by (simp_all add: pa_def)
  have "size2 mod 4 = 0" unfolding s2 pa_def by (rule r4)
  then have "(size2 + ?t) mod 4 = ?t mod 4" by (rule mod4_add)
  with TerminateOscString_ok[OF t2[unfolded r]]
  have s4: "size4 = size2 + ?t + pt"
    and m4: "\<forall>i. d4 i = (if size2 + ?t \<le> i \<and> i < size4 then 0 else ?d3 i)"
    by (simp_all add: pt_def)
  have e2: "(if (?a + 1) mod 4 \<noteq> 0 then ?a + 1 + (4 - (?a + 1) mod 4) else ?a + 1) = size2"
    unfolding s2 pa_def by (rule round_up_4)
  from TerminateOscString_ok[OF t2[unfolded r]]
  have s4': "size4 = size2 + ?t + (4 - (size2 + ?t) mod 4)" by simp
  have "(if (size2 + ?t + 1) mod 4 \<noteq> 0 then size2 + ?t + 1 + (4 - (size2 + ?t + 1) mod 4)
         else size2 + ?t + 1) = size4"
    unfolding s4' by (rule round_up_4)
  then have e4: "(if (size2 + (?t + 1)) mod 4 \<noteq> 0 then size2 + (?t + 1) + (4 - (size2 + (?t + 1)) mod 4)
         else size2 + (?t + 1)) = size4"
    by (simp only: add.assoc)
  have g: "OscMessageGetSize m = size4 + argumentsSize m"
    unfolding OscMessageGetSize_def Let_def e2 e4 by (rule refl)
  have h1: "holds destination' 0 (bytes_of (oscAddressPattern m) ?a)"
    by (rule holds_bytes_of_at) (simp add: d copy_bytes_apply m4 m2 s4 s2)
  have "\<forall>j. ?a \<le> j \<and> j < ?a + pa \<longrightarrow> destination' j = 0"
    by (simp add: d copy_bytes_apply m4 m2 s4 s2)
  then have h2: "holds destination' ?a (replicate pa 0)"
    by (simp only: holds_replicate)
  have h3: "holds destination' size2 (bytes_of (oscTypeTagString m) ?t)"
    by (rule holds_bytes_of_at) (simp add: d copy_bytes_apply m4 s4)
  have "\<forall>j. size2 + ?t \<le> j \<and> j < size2 + ?t + pt \<longrightarrow> destination' j = 0"
    by (simp add: d copy_bytes_apply m4 s4)
  then have h4: "holds destination' (size2 + ?t) (replicate pt 0)"
    by (simp only: holds_replicate)
  have h5: "holds destination' size4 (bytes_of (arguments m) (argumentsSize m))"
    by (rule holds_bytes_of_at) (simp add: d copy_bytes_apply)
  have ser: "serialized m = bytes_of (oscAddressPattern m) ?a @ replicate pa 0 @
      bytes_of (oscTypeTagString m) ?t @ replicate pt 0 @ bytes_of (arguments m) (argumentsSize m)"
    by (simp add: serialized_def pad_string_def pa_def pt_def)
  have len: "length (serialized m) = n"
    by (simp add: ser n s4 s2)
  have "holds destination' 0 (serialized m)"
    unfolding ser using h1 h2 h3 h4 h5 by (simp only: holds_append) (simp add: s2 s4 add.assoc)
  then have "bytes_of destination' (length (serialized m)) = serialized m"
    by (simp only: holds_bytes_of)
  then have b: "bytes_of destination' n = serialized m"
    by (simp only: len)
  have "\<forall>i\<ge>n. destination' i = destination i"
  proof (intro allI impI)
    fix i assume "n \<le> i"
    with n(1) s4 s2 have "size4 \<le> i" "size2 + ?t \<le> i" "size2 \<le> i" "?a \<le> i" "size4 + argumentsSize m \<le> i"
      by simp_all
    then show "destination' i = destination i"
      using m4 m2 by (simp add: d copy_bytes_apply)
  qed
  with g n b show ?thesis by simp
qed

theorem OscMessageGetSize_is_serialized_size_witness:
  "OscMessageToCharArray (message_of ''/example'') full_array 1472
     = (0, 16, snd (snd (OscMessageToCharArray (message_of ''/example'') full_array 1472))) \<and>
   16 = OscMessageGetSize (message_of ''/example'') \<and> (16::nat) \<le> 1472 \<and>
   bytes_of (snd (snd (OscMessageToCharArray (message_of ''/example'') full_array 1472))) 16
     = ascii ''/example'' @ [0, 0, 0, 0, 0x2C, 0, 0, 0] \<and>
   serialized (message_of ''/example'') = ascii ''/example'' @ [0, 0, 0, 0, 0x2C, 0, 0, 0] \<and>
   snd (snd (OscMessageToCharArray (message_of ''/example'') full_array 1472)) 16 = 0xFF"
proof -
  have "fst (OscMessageToCharArray (message_of ''/example'') full_array 1472) = 0"
    "fst (snd (OscMessageToCharArray (message_of ''/example'') full_array 1472)) = 16"
    by (simp_all add: OscMessageToCharArray_def eval_msg)
  then have e: "OscMessageToCharArray (message_of ''/example'') full_array 1472
     = (0, 16, snd (snd (OscMessageToCharArray (message_of ''/example'') full_array 1472)))"
    by (metis prod.collapse)
  have s: "serialized (message_of ''/example'') = ascii ''/example'' @ [0, 0, 0, 0, 0x2C, 0, 0, 0]"
    by (simp add: serialized_def pad_string_def eval_msg bytes_of_def upt_rec)
      (simp add: numeral_eq_Suc)
  from OscMessageGetSize_is_serialized_size[OF e] e s show ?thesis by (simp add: full_array_def)
qed

end
